theory Spec2Isabelle
  imports Main "HOL-Library.Word"
begin

section \<open>The htclow channel multiplexer (htclow_mux.cpp)\<close>

text \<open>
  A shallow embedding of \<^verbatim>\<open>ams::htclow::mux::Mux\<close>. Every member function of
  htclow_mux.cpp is a HOL function that takes the multiplexer (a record of its data
  members) and returns the result together with the multiplexer as the call leaves it.
  An assertion or abort that fires is the value \<open>Aborted\<close>.

  The classes the file only uses (the packet factory, the per-channel engine
  \<^verbatim>\<open>ChannelImpl\<close>, \<^verbatim>\<open>ChannelImplMap\<close>, \<^verbatim>\<open>GlobalSendBuffer\<close>, the task manager) are
  declared in other files. Their operations are either fields of the environment record
  \<open>Env\<close> (arbitrary functions, so every theorem holds for each of them) or small
  definitions marked \<open>Modelled from the spec\<close>.
\<close>

subsection \<open>Packets and results\<close>

type_synonym u16 = "16 word"
type_synonym u32 = "32 word"

text \<open>
  Modelled from the spec: \<^verbatim>\<open>impl::ChannelInternalType\<close> is declared outside this file;
  the spec only says "channel identifier", a value compared for equality.
\<close>
type_synonym ChannelInternalType = nat

text \<open>
  Modelled from the spec: \<^verbatim>\<open>PacketType\<close> and \<^verbatim>\<open>PacketHeader\<close> are declared outside this
  file. The header has the fields the file reads, with the types the spec gives them
  (the version is a u16; the body size is compared as an unsigned number).

  The three packet kinds the switch of \<^verbatim>\<open>CheckReceivedHeader\<close> names.
  \<open>PacketType_Invalid\<close> stands for every other value the field of a received header can
  hold: the value that reaches \<^verbatim>\<open>AMS_UNREACHABLE_DEFAULT_CASE\<close>.
\<close>
datatype PacketType = PacketType_Data | PacketType_MaxData | PacketType_Error | PacketType_Invalid

record PacketHeader =
  signature :: u32
  version :: u16
  packet_type :: PacketType
  channel :: ChannelInternalType
  body_size :: u32

type_synonym PacketBody = "8 word list"

text \<open>A queued control packet: the multiplexer reads nothing of it but its header.\<close>
record Packet =
  GetHeader :: PacketHeader

text \<open>
  The result codes the file names, \<open>ResultAllocationFailure\<close> (modelled from the spec:
  the "AllocationFailure" of its packet factory interface) and \<open>ResultOther\<close> for any
  other code a collaborator returns.
\<close>
datatype Result =
    ResultSuccess
  | ResultProtocolError
  | ResultChannelNotExist
  | ResultChannelAlreadyExist
  | ResultAllocationFailure
  | ResultOther nat

datatype 'a exec = Aborted | Returned 'a

datatype MuxState = Normal | Sleep

subsection \<open>Collaborators\<close>

text \<open>
  Modelled from the spec: \<^verbatim>\<open>ChannelImpl\<close> is declared outside this file. A channel
  "owns a send buffer, a receive buffer, and a negotiated protocol version": the version
  is a field, everything else is the engine state \<open>'e\<close>, which only the engine's own
  operations (fields of \<open>Env\<close>) read and write.
\<close>
record 'e ChannelImpl =
  channel_version :: u16
  engine :: 'e

text \<open>Modelled from the spec: \<^verbatim>\<open>ChannelImpl::SetVersion\<close> stores the version.\<close>
definition ch_SetVersion :: "u16 \<Rightarrow> 'e ChannelImpl \<Rightarrow> 'e ChannelImpl" where
  "ch_SetVersion v c = c\<lparr>channel_version := v\<rparr>"

text \<open>
  The three out-parameters of \<^verbatim>\<open>QuerySendPacket\<close>
  (\<^verbatim>\<open>PacketHeader *header, PacketBody *body, int *out_body_size\<close>): the caller's buffers,
  passed in and returned as the call leaves them.
\<close>
record SendOut =
  out_header :: PacketHeader
  out_body :: PacketBody
  out_body_size :: int

text \<open>
  Modelled from the spec: the channel table ("mapping channel id \<rightarrow> Channel", iterated
  in a stable order). The source iterates \<^verbatim>\<open>m_channel_impl_map.GetMap()\<close> and reaches
  each channel as \<^verbatim>\<open>m_channel_impl_map[pair.second]\<close>; here each identifier is paired
  with its channel, in iteration order.
\<close>
type_synonym 'e ChannelImplMap = "(ChannelInternalType \<times> 'e ChannelImpl) list"

text \<open>
  What the file takes from outside: the constants \<^verbatim>\<open>HtcGen2Signature\<close>,
  \<^verbatim>\<open>sizeof(PacketBody)\<close> and \<^verbatim>\<open>ProtocolVersion\<close>, the packet factory
  (\<^verbatim>\<open>MakeErrorPacket\<close> returns a \<^verbatim>\<open>unique_ptr\<close>: \<open>None\<close> is the null pointer of a failed
  allocation), the allocation of a new table entry, the task manager's lookup and the
  operations of the channel engine.
\<close>
record 'e Env =
  HtcGen2Signature :: u32
  sizeof_PacketBody :: nat
  ProtocolVersion :: u16
  MakeErrorPacket :: "ChannelInternalType \<Rightarrow> Packet option"
  AllocateChannel :: "'e ChannelImplMap \<Rightarrow> ChannelInternalType \<Rightarrow> 'e ChannelImpl option"
  tm_GetTaskEvent :: "u32 \<Rightarrow> nat"
  ch_ProcessReceivePacket ::
    "PacketHeader \<Rightarrow> PacketBody \<Rightarrow> nat \<Rightarrow> 'e ChannelImpl \<Rightarrow> Result \<times> 'e ChannelImpl"
  ch_QuerySendPacket :: "SendOut \<Rightarrow> 'e ChannelImpl \<Rightarrow> bool \<times> SendOut \<times> 'e ChannelImpl"
  ch_RemovePacket :: "PacketHeader \<Rightarrow> 'e ChannelImpl \<Rightarrow> 'e ChannelImpl"
  ch_UpdateState :: "'e ChannelImpl \<Rightarrow> 'e ChannelImpl"
  ch_SetSendBuffer :: "nat \<Rightarrow> nat \<Rightarrow> nat \<Rightarrow> 'e ChannelImpl \<Rightarrow> 'e ChannelImpl"
  ch_SetSendBufferWithData :: "nat \<Rightarrow> nat \<Rightarrow> nat \<Rightarrow> 'e ChannelImpl \<Rightarrow> 'e ChannelImpl"
  ch_SetReceiveBuffer :: "nat \<Rightarrow> nat \<Rightarrow> 'e ChannelImpl \<Rightarrow> 'e ChannelImpl"

text \<open>\<^verbatim>\<open>GetMap().find(channel)\<close>: the entry of the first pair with that key.\<close>
primrec find_channel :: "ChannelInternalType \<Rightarrow> 'e ChannelImplMap \<Rightarrow> 'e ChannelImpl option" where
  "find_channel k [] = None"
| "find_channel k (p # ps) = (if fst p = k then Some (snd p) else find_channel k ps)"

text \<open>Writing back the channel a \<^verbatim>\<open>find\<close> returned, after a call changed it in place.\<close>
primrec store_channel ::
  "ChannelInternalType \<Rightarrow> 'e ChannelImpl \<Rightarrow> 'e ChannelImplMap \<Rightarrow> 'e ChannelImplMap" where
  "store_channel k c [] = []"
| "store_channel k c (p # ps) = (if fst p = k then (k, c) # ps else p # store_channel k c ps)"

text \<open>Modelled from the spec: \<^verbatim>\<open>ChannelImplMap::Exists\<close>, the existence check.\<close>
definition Exists :: "'e ChannelImplMap \<Rightarrow> ChannelInternalType \<Rightarrow> bool" where
  "Exists tbl k = (find_channel k tbl \<noteq> None)"

text \<open>
  Modelled from the spec: \<^verbatim>\<open>ChannelImplMap::AddChannel\<close> "inserts a new channel entry".
  The source checks its result with \<^verbatim>\<open>R_TRY\<close>, so it can fail; the spec names no code
  for that and fixes no position for the new entry: the failure is
  \<open>ResultAllocationFailure\<close> and the entry goes last.
\<close>
definition AddChannel ::
  "'e Env \<Rightarrow> ChannelInternalType \<Rightarrow> 'e ChannelImplMap \<Rightarrow> Result \<times> 'e ChannelImplMap" where
  "AddChannel env k tbl =
     (case AllocateChannel env tbl k of
        None \<Rightarrow> (ResultAllocationFailure, tbl)
      | Some c \<Rightarrow> (ResultSuccess, tbl @ [(k, c)]))"

text \<open>
  Modelled from the spec: \<^verbatim>\<open>GlobalSendBuffer\<close>, the control queue ("FIFO retrieval of
  the next pending item"). \<open>GetNextPacket\<close> is the front packet or the null pointer,
  \<open>AddPacket\<close> enqueues at the back and "propagates any allocation/construction failure
  from the factory", \<open>gsb_RemovePacket\<close> pops the front (the spec does not say what a pop
  of the empty queue does: it is left empty).
\<close>
definition GetNextPacket :: "Packet list \<Rightarrow> Packet option" where
  "GetNextPacket q = (case q of [] \<Rightarrow> None | p # _ \<Rightarrow> Some p)"

definition AddPacket :: "Packet option \<Rightarrow> Packet list \<Rightarrow> Result \<times> Packet list" where
  "AddPacket ptr q =
     (case ptr of
        None \<Rightarrow> (ResultAllocationFailure, q)
      | Some p \<Rightarrow> (ResultSuccess, q @ [p]))"

definition gsb_RemovePacket :: "Packet list \<Rightarrow> Packet list" where
  "gsb_RemovePacket q = (case q of [] \<Rightarrow> [] | _ # r \<Rightarrow> r)"

text \<open>
  The task manager, as far as the multiplexer drives it: the number of
  \<^verbatim>\<open>NotifySendReady\<close> calls the multiplexer has made.
\<close>
record TaskManager =
  send_ready_notifications :: nat

definition NotifySendReady :: "TaskManager \<Rightarrow> TaskManager" where
  "NotifySendReady t = t\<lparr>send_ready_notifications := Suc (send_ready_notifications t)\<rparr>"

subsection \<open>The multiplexer\<close>

text \<open>
  \<open>m_mutex\<close> is the history of the mutex: \<^verbatim>\<open>std::scoped_lock lk(m_mutex)\<close> appends
  \<open>Lock\<close> where it is declared and \<open>Unlock\<close> where its scope is left by a return.
  Each event carries the members the lock is there to guard (the channel table, the
  control queue, the operational state and the version) as they are at that moment, so
  that the history tells whether a change was made before the lock was taken, while it
  was held, or after it was released.
  \<open>m_event\<close> is the manual-reset event: \<open>True\<close> when signalled.
\<close>
type_synonym 'e Guarded = "'e ChannelImplMap \<times> Packet list \<times> MuxState \<times> u16"

datatype 'e MutexEvent = Lock "'e Guarded" | Unlock "'e Guarded"

record 'e Mux =
  m_task_manager :: TaskManager
  m_event :: bool
  m_channel_impl_map :: "'e ChannelImplMap"
  m_global_send_buffer :: "Packet list"
  m_mutex :: "'e MutexEvent list"
  m_state :: MuxState
  m_version :: u16

definition Mux_ctor :: "'e Env \<Rightarrow> 'e Mux" where
  "Mux_ctor env =
     \<lparr> m_task_manager = \<lparr> send_ready_notifications = 0 \<rparr>,
       m_event = False,
       m_channel_impl_map = [],
       m_global_send_buffer = [],
       m_mutex = [],
       m_state = Normal,
       m_version = ProtocolVersion env \<rparr>"

definition guarded_state :: "'e Mux \<Rightarrow> 'e Guarded" where
  "guarded_state m = (m_channel_impl_map m, m_global_send_buffer m, m_state m, m_version m)"

definition lock :: "'e Mux \<Rightarrow> 'e Mux" where
  "lock m = m\<lparr>m_mutex := m_mutex m @ [Lock (guarded_state m)]\<rparr>"

definition unlock :: "'e Mux \<Rightarrow> 'e Mux" where
  "unlock m = m\<lparr>m_mutex := m_mutex m @ [Unlock (guarded_state m)]\<rparr>"


text \<open>\<^verbatim>\<open>Mux::SetVersion\<close>: the loop over the map is the recursion \<open>SetVersion_entries\<close>.\<close>
primrec SetVersion_entries :: "u16 \<Rightarrow> 'e ChannelImplMap \<Rightarrow> 'e ChannelImplMap" where
  "SetVersion_entries v [] = []"
| "SetVersion_entries v (p # ps) = (fst p, ch_SetVersion v (snd p)) # SetVersion_entries v ps"

definition SetVersion :: "u16 \<Rightarrow> 'e Mux \<Rightarrow> 'e Mux" where
  "SetVersion v m =
     (let m1 = m\<lparr>m_version := v\<rparr>
      in m1\<lparr>m_channel_impl_map := SetVersion_entries (m_version m1) (m_channel_impl_map m1)\<rparr>)"

text \<open>\<^verbatim>\<open>Mux::CheckReceivedHeader\<close>: each \<^verbatim>\<open>R_UNLESS\<close> is an early return.\<close>
definition CheckReceivedHeader :: "'e Env \<Rightarrow> 'e Mux \<Rightarrow> PacketHeader \<Rightarrow> Result exec" where
  "CheckReceivedHeader env m header =
     (if signature header \<noteq> HtcGen2Signature env then Aborted
      else case packet_type header of
        PacketType_Data \<Rightarrow>
          if \<not> version header = m_version m then Returned ResultProtocolError
          else if \<not> unat (body_size header) \<le> sizeof_PacketBody env then Returned ResultProtocolError
          else Returned ResultSuccess
      | PacketType_MaxData \<Rightarrow>
          if \<not> version header = m_version m then Returned ResultProtocolError
          else if \<not> body_size header = 0 then Returned ResultProtocolError
          else Returned ResultSuccess
      | PacketType_Error \<Rightarrow>
          if \<not> body_size header = 0 then Returned ResultProtocolError
          else Returned ResultSuccess
      | PacketType_Invalid \<Rightarrow> Aborted)"

text \<open>
  \<^verbatim>\<open>Mux::SendErrorPacket\<close>: \<^verbatim>\<open>R_TRY\<close> returns a result that is not success before the
  event is signalled. The function takes no lock.
\<close>
definition SendErrorPacket :: "'e Env \<Rightarrow> ChannelInternalType \<Rightarrow> 'e Mux \<Rightarrow> Result \<times> 'e Mux" where
  "SendErrorPacket env k m =
     (case AddPacket (MakeErrorPacket env k) (m_global_send_buffer m) of
        (r, q) \<Rightarrow>
          let m1 = m\<lparr>m_global_send_buffer := q\<rparr>
          in if r \<noteq> ResultSuccess then (r, m1)
             else (ResultSuccess, m1\<lparr>m_event := True\<rparr>))"

text \<open>
  \<^verbatim>\<open>Mux::ProcessReceivePacket\<close>. On the path of an unknown channel the result of
  \<^verbatim>\<open>this->SendErrorPacket(header.channel)\<close> is not looked at.
\<close>
definition ProcessReceivePacket ::
  "'e Env \<Rightarrow> PacketHeader \<Rightarrow> PacketBody \<Rightarrow> nat \<Rightarrow> 'e Mux \<Rightarrow> Result \<times> 'e Mux" where
  "ProcessReceivePacket env header body bsize m =
     (let m1 = lock m
      in case find_channel (channel header) (m_channel_impl_map m1) of
           Some c \<Rightarrow>
             (case ch_ProcessReceivePacket env header body bsize c of
                (r, c') \<Rightarrow>
                  (r, unlock (m1\<lparr>m_channel_impl_map :=
                                   store_channel (channel header) c' (m_channel_impl_map m1)\<rparr>)))
         | None \<Rightarrow>
             let m2 = (if packet_type header = PacketType_Data \<or> packet_type header = PacketType_MaxData
                       then snd (SendErrorPacket env (channel header) m1)
                       else m1)
             in (ResultChannelNotExist, unlock m2))"

text \<open>\<^verbatim>\<open>Mux::IsSendable\<close>: the packet type is not looked at.\<close>
definition IsSendable :: "'e Mux \<Rightarrow> PacketType \<Rightarrow> bool" where
  "IsSendable m t = (case m_state m of Normal \<Rightarrow> True | Sleep \<Rightarrow> False)"

text \<open>
  The loop of \<^verbatim>\<open>Mux::QuerySendPacket\<close> over the map. \<open>Some b\<close> is the
  \<^verbatim>\<open>return this->IsSendable(header->packet_type)\<close> inside the loop, \<open>None\<close> is the loop
  running to its end. The buffers go from one channel's query to the next.
\<close>
fun QuerySendPacket_loop ::
  "'e Env \<Rightarrow> 'e Mux \<Rightarrow> SendOut \<Rightarrow> 'e ChannelImplMap \<Rightarrow> bool option \<times> SendOut \<times> 'e ChannelImplMap" where
  "QuerySendPacket_loop env m out [] = (None, out, [])"
| "QuerySendPacket_loop env m out (p # ps) =
     (case ch_QuerySendPacket env out (snd p) of
        (ready, out1, c') \<Rightarrow>
          if ready then (Some (IsSendable m (packet_type (out_header out1))), out1, (fst p, c') # ps)
          else (case QuerySendPacket_loop env m out1 ps of
                  (r, out2, ps') \<Rightarrow> (r, out2, (fst p, c') # ps')))"

definition QuerySendPacket :: "'e Env \<Rightarrow> SendOut \<Rightarrow> 'e Mux \<Rightarrow> bool \<times> SendOut \<times> 'e Mux" where
  "QuerySendPacket env out m =
     (let m1 = lock m
      in case GetNextPacket (m_global_send_buffer m1) of
           Some error_packet \<Rightarrow>
             (True, out\<lparr>out_header := GetHeader error_packet, out_body_size := 0\<rparr>, unlock m1)
         | None \<Rightarrow>
             (case QuerySendPacket_loop env m1 out (m_channel_impl_map m1) of
                (r, out1, tbl) \<Rightarrow>
                  (case r of
                     Some b \<Rightarrow> (b, out1, unlock (m1\<lparr>m_channel_impl_map := tbl\<rparr>))
                   | None \<Rightarrow> (False, out1, unlock (m1\<lparr>m_channel_impl_map := tbl\<rparr>)))))"

text \<open>\<^verbatim>\<open>Mux::RemovePacket\<close>.\<close>
definition RemovePacket :: "'e Env \<Rightarrow> PacketHeader \<Rightarrow> 'e Mux \<Rightarrow> 'e Mux" where
  "RemovePacket env header m =
     (let m1 = lock m;
          m2 = (if packet_type header = PacketType_Error
                then m1\<lparr>m_global_send_buffer := gsb_RemovePacket (m_global_send_buffer m1)\<rparr>
                else case find_channel (channel header) (m_channel_impl_map m1) of
                       Some c \<Rightarrow>
                         m1\<lparr>m_channel_impl_map :=
                              store_channel (channel header) (ch_RemovePacket env header c)
                                (m_channel_impl_map m1)\<rparr>
                     | None \<Rightarrow> m1)
      in unlock (m2\<lparr>m_task_manager := NotifySendReady (m_task_manager m2)\<rparr>))"

text \<open>\<^verbatim>\<open>Mux::UpdateChannelState\<close>: the loop over the map.\<close>
primrec UpdateState_entries :: "'e Env \<Rightarrow> 'e ChannelImplMap \<Rightarrow> 'e ChannelImplMap" where
  "UpdateState_entries env [] = []"
| "UpdateState_entries env (p # ps) = (fst p, ch_UpdateState env (snd p)) # UpdateState_entries env ps"

definition UpdateChannelState :: "'e Env \<Rightarrow> 'e Mux \<Rightarrow> 'e Mux" where
  "UpdateChannelState env m =
     (let m1 = lock m
      in unlock (m1\<lparr>m_channel_impl_map := UpdateState_entries env (m_channel_impl_map m1)\<rparr>))"

text \<open>
  \<^verbatim>\<open>Mux::UpdateMuxState\<close>; \<open>is_sleeping\<close> is what \<^verbatim>\<open>m_state_machine->IsSleeping()\<close>
  answers at the call.
\<close>
definition UpdateMuxState :: "bool \<Rightarrow> 'e Mux \<Rightarrow> 'e Mux" where
  "UpdateMuxState is_sleeping m =
     (let m1 = lock m
      in if is_sleeping then unlock (m1\<lparr>m_state := Sleep\<rparr>)
         else unlock (m1\<lparr>m_state := Normal, m_event := True\<rparr>))"

text \<open>\<^verbatim>\<open>Mux::CheckChannelExist\<close>: it takes no lock and changes nothing.\<close>
definition CheckChannelExist :: "ChannelInternalType \<Rightarrow> 'e Mux \<Rightarrow> Result \<times> 'e Mux" where
  "CheckChannelExist k m =
     (if \<not> Exists (m_channel_impl_map m) k then (ResultChannelNotExist, m)
      else (ResultSuccess, m))"

text \<open>
  \<^verbatim>\<open>Mux::Open\<close>. \<^verbatim>\<open>GetChannelImpl(channel).SetVersion(m_version)\<close> sets the version of
  the entry found for the identifier (modelled from the spec: \<^verbatim>\<open>GetChannelImpl\<close> is the
  lookup of the table; a lookup that finds nothing has no channel to return, which is
  \<open>Aborted\<close> here).
\<close>
definition Open :: "'e Env \<Rightarrow> ChannelInternalType \<Rightarrow> 'e Mux \<Rightarrow> (Result \<times> 'e Mux) exec" where
  "Open env k m =
     (let m1 = lock m
      in if \<not> \<not> Exists (m_channel_impl_map m1) k then Returned (ResultChannelAlreadyExist, unlock m1)
         else case AddChannel env k (m_channel_impl_map m1) of
                (r, tbl) \<Rightarrow>
                  let m2 = m1\<lparr>m_channel_impl_map := tbl\<rparr>
                  in if r \<noteq> ResultSuccess then Returned (r, unlock m2)
                     else case find_channel k (m_channel_impl_map m2) of
                            None \<Rightarrow> Aborted
                          | Some c \<Rightarrow>
                              Returned (ResultSuccess,
                                unlock (m2\<lparr>m_channel_impl_map :=
                                             store_channel k (ch_SetVersion (m_version m2) c)
                                               (m_channel_impl_map m2)\<rparr>)))"


text \<open>\<^verbatim>\<open>Mux::GetTaskEvent\<close>.\<close>
definition GetTaskEvent :: "'e Env \<Rightarrow> u32 \<Rightarrow> 'e Mux \<Rightarrow> nat \<times> 'e Mux" where
  "GetTaskEvent env task_id m = (let m1 = lock m in (tm_GetTaskEvent env task_id, unlock m1))"

text \<open>
  The three buffer setters: \<^verbatim>\<open>AMS_ABORT_UNLESS(it != end())\<close> aborts, with the lock
  held, when the channel is not in the table.
\<close>
definition SetSendBuffer ::
  "'e Env \<Rightarrow> ChannelInternalType \<Rightarrow> nat \<Rightarrow> nat \<Rightarrow> nat \<Rightarrow> 'e Mux \<Rightarrow> 'e Mux exec" where
  "SetSendBuffer env k buf buf_size max_packet_size m =
     (let m1 = lock m
      in case find_channel k (m_channel_impl_map m1) of
           None \<Rightarrow> Aborted
         | Some c \<Rightarrow>
             Returned (unlock (m1\<lparr>m_channel_impl_map :=
               store_channel k (ch_SetSendBuffer env buf buf_size max_packet_size c)
                 (m_channel_impl_map m1)\<rparr>)))"

definition SetSendBufferWithData ::
  "'e Env \<Rightarrow> ChannelInternalType \<Rightarrow> nat \<Rightarrow> nat \<Rightarrow> nat \<Rightarrow> 'e Mux \<Rightarrow> 'e Mux exec" where
  "SetSendBufferWithData env k buf buf_size max_packet_size m =
     (let m1 = lock m
      in case find_channel k (m_channel_impl_map m1) of
           None \<Rightarrow> Aborted
         | Some c \<Rightarrow>
             Returned (unlock (m1\<lparr>m_channel_impl_map :=
               store_channel k (ch_SetSendBufferWithData env buf buf_size max_packet_size c)
                 (m_channel_impl_map m1)\<rparr>)))"

definition SetReceiveBuffer ::
  "'e Env \<Rightarrow> ChannelInternalType \<Rightarrow> nat \<Rightarrow> nat \<Rightarrow> 'e Mux \<Rightarrow> 'e Mux exec" where
  "SetReceiveBuffer env k buf buf_size m =
     (let m1 = lock m
      in case find_channel k (m_channel_impl_map m1) of
           None \<Rightarrow> Aborted
         | Some c \<Rightarrow>
             Returned (unlock (m1\<lparr>m_channel_impl_map :=
               store_channel k (ch_SetReceiveBuffer env buf buf_size c)
                 (m_channel_impl_map m1)\<rparr>)))"

subsection \<open>A list of channels that all have nothing to send\<close>

text \<open>
  What it is for the channels of a list, asked one after the other for a packet, each
  with the buffers as the one before left them, to answer all that they have none:
  \<open>Some\<close> of the buffers and the channels as the questions leave them. \<open>None\<close> means that
  one of them answered that it has a packet. This is stated on the answers of
  \<open>ch_QuerySendPacket\<close> alone, not on the scan of \<open>QuerySendPacket\<close>.
\<close>
fun all_decline ::
  "'e Env \<Rightarrow> SendOut \<Rightarrow> 'e ChannelImplMap \<Rightarrow> (SendOut \<times> 'e ChannelImplMap) option" where
  "all_decline env out [] = Some (out, [])"
| "all_decline env out (p # ps) =
     (case ch_QuerySendPacket env out (snd p) of
        (ready, out1, c') \<Rightarrow>
          if ready then None
          else (case all_decline env out1 ps of
                  None \<Rightarrow> None
                | Some (out2, ps') \<Rightarrow> Some (out2, (fst p, c') # ps')))"

subsection \<open>States the multiplexer can reach\<close>

text \<open>
  The states reached from the constructor by the member functions of the file, each
  called with any arguments. A buffer setter that aborts leaves no state behind.
\<close>
inductive reachable :: "'e Env \<Rightarrow> 'e Mux \<Rightarrow> bool" for env :: "'e Env" where
  r_ctor: "reachable env (Mux_ctor env)"
| r_SetVersion: "reachable env m \<Longrightarrow> reachable env (SetVersion v m)"
| r_ProcessReceivePacket:
    "reachable env m \<Longrightarrow> reachable env (snd (ProcessReceivePacket env header body bsize m))"
| r_QuerySendPacket: "reachable env m \<Longrightarrow> reachable env (snd (snd (QuerySendPacket env out m)))"
| r_RemovePacket: "reachable env m \<Longrightarrow> reachable env (RemovePacket env header m)"
| r_UpdateChannelState: "reachable env m \<Longrightarrow> reachable env (UpdateChannelState env m)"
| r_UpdateMuxState: "reachable env m \<Longrightarrow> reachable env (UpdateMuxState is_sleeping m)"
| r_CheckChannelExist: "reachable env m \<Longrightarrow> reachable env (snd (CheckChannelExist k m))"
| r_SendErrorPacket: "reachable env m \<Longrightarrow> reachable env (snd (SendErrorPacket env k m))"
| r_Open: "reachable env m \<Longrightarrow> Open env k m = Returned (r, m') \<Longrightarrow> reachable env m'"
| r_GetTaskEvent: "reachable env m \<Longrightarrow> reachable env (snd (GetTaskEvent env task_id m))"
| r_SetSendBuffer:
    "reachable env m \<Longrightarrow> SetSendBuffer env k buf buf_size max_packet_size m = Returned m'
       \<Longrightarrow> reachable env m'"
| r_SetSendBufferWithData:
    "reachable env m \<Longrightarrow> SetSendBufferWithData env k buf buf_size max_packet_size m = Returned m'
       \<Longrightarrow> reachable env m'"
| r_SetReceiveBuffer:
    "reachable env m \<Longrightarrow> SetReceiveBuffer env k buf buf_size m = Returned m' \<Longrightarrow> reachable env m'"

text \<open>Every channel of the table carries the multiplexer's version.\<close>
definition version_consistent :: "'e Mux \<Rightarrow> bool" where
  "version_consistent m = (\<forall>p \<in> set (m_channel_impl_map m). channel_version (snd p) = m_version m)"

text \<open>
  What the version claims need of the channel engine, which is not in this file: only
  \<open>ch_SetVersion\<close> changes a channel's version.
\<close>
definition engine_keeps_version :: "'e Env \<Rightarrow> bool" where
  "engine_keeps_version env =
     ((\<forall>header body bsize c.
         channel_version (snd (ch_ProcessReceivePacket env header body bsize c)) = channel_version c)
    \<and> (\<forall>out c. channel_version (snd (snd (ch_QuerySendPacket env out c))) = channel_version c)
    \<and> (\<forall>header c. channel_version (ch_RemovePacket env header c) = channel_version c)
    \<and> (\<forall>c. channel_version (ch_UpdateState env c) = channel_version c)
    \<and> (\<forall>buf buf_size max_packet_size c.
         channel_version (ch_SetSendBuffer env buf buf_size max_packet_size c) = channel_version c)
    \<and> (\<forall>buf buf_size max_packet_size c.
         channel_version (ch_SetSendBufferWithData env buf buf_size max_packet_size c) = channel_version c)
    \<and> (\<forall>buf buf_size c. channel_version (ch_SetReceiveBuffer env buf buf_size c) = channel_version c))"

text \<open>
  A channel engine whose query only reads: asking a channel for its next packet leaves
  the channel as it was.
\<close>
definition query_reads_only :: "'e Env \<Rightarrow> bool" where
  "query_reads_only env = (\<forall>out c. snd (snd (ch_QuerySendPacket env out c)) = c)"

subsection \<open>A concrete environment\<close>

text \<open>
  An instance of the collaborators, for evaluating the functions above on concrete
  inputs: a channel engine whose state is the number of bytes it has to send, a factory
  that always delivers, and \<open>failing_env\<close>, the same with a factory out of memory.
\<close>
definition sample_header :: "PacketType \<Rightarrow> ChannelInternalType \<Rightarrow> PacketHeader" where
  "sample_header t k =
     \<lparr> signature = 0xA79F3540, version = 5, packet_type = t, channel = k, body_size = 0 \<rparr>"

definition sample_env :: "nat Env" where
  "sample_env =
     \<lparr> HtcGen2Signature = 0xA79F3540,
       sizeof_PacketBody = 4096,
       ProtocolVersion = 5,
       MakeErrorPacket = (\<lambda>k. Some \<lparr> GetHeader = sample_header PacketType_Error k \<rparr>),
       AllocateChannel = (\<lambda>tbl k. Some \<lparr> channel_version = 0, engine = 0 \<rparr>),
       tm_GetTaskEvent = (\<lambda>task_id. unat task_id),
       ch_ProcessReceivePacket = (\<lambda>header body bsize c. (ResultSuccess, c)),
       ch_QuerySendPacket = (\<lambda>out c.
         if engine c = 0 then (False, out, c)
         else (True, out\<lparr>out_header := sample_header PacketType_Data 0,
                          out_body_size := int (engine c)\<rparr>, c)),
       ch_RemovePacket = (\<lambda>header c. c\<lparr>engine := 0\<rparr>),
       ch_UpdateState = (\<lambda>c. c),
       ch_SetSendBuffer = (\<lambda>buf buf_size max_packet_size c. c),
       ch_SetSendBufferWithData = (\<lambda>buf buf_size max_packet_size c. c\<lparr>engine := buf_size\<rparr>),
       ch_SetReceiveBuffer = (\<lambda>buf buf_size c. c) \<rparr>"

definition failing_env :: "nat Env" where
  "failing_env = sample_env\<lparr>MakeErrorPacket := (\<lambda>k. None)\<rparr>"

definition sample_out :: SendOut where
  "sample_out = \<lparr> out_header = sample_header PacketType_Invalid 0, out_body = [], out_body_size = - 1 \<rparr>"

text \<open>A channel with the given number of bytes to send.\<close>
definition sample_channel :: "nat \<Rightarrow> nat ChannelImpl" where
  "sample_channel n = \<lparr> channel_version = 5, engine = n \<rparr>"

text \<open>
  The multiplexer after construction, with the given table, control queue and
  operational state.
\<close>
definition sample_mux :: "nat ChannelImplMap \<Rightarrow> Packet list \<Rightarrow> MuxState \<Rightarrow> nat Mux" where
  "sample_mux tbl q st =
     (Mux_ctor sample_env)\<lparr>m_channel_impl_map := tbl, m_global_send_buffer := q, m_state := st\<rparr>"

section \<open>Lemmas on the table and the send loop\<close>

lemma find_channel_append_new:
  "find_channel k tbl = None \<Longrightarrow> find_channel k (tbl @ [(k, c)]) = Some c"
  by (induction tbl) (auto split: if_splits)

lemma store_channel_append_new:
  "find_channel k tbl = None \<Longrightarrow> store_channel k c' (tbl @ [(k, c)]) = tbl @ [(k, c')]"
  by (induction tbl) (auto split: if_splits)

lemma store_channel_set:
  "set (store_channel k c tbl) \<subseteq> insert (k, c) (set tbl)"
  by (induction tbl) auto

lemma store_channel_keys: "map fst (store_channel k c tbl) = map fst tbl"
  by (induction tbl) auto

lemma find_channel_in_set: "find_channel k tbl = Some c \<Longrightarrow> (k, c) \<in> set tbl"
  by (induction tbl) (auto split: if_splits)

lemma SetVersion_entries_version:
  "p \<in> set (SetVersion_entries v tbl) \<Longrightarrow> channel_version (snd p) = v"
  by (induction tbl) (auto simp: ch_SetVersion_def)

lemma SetVersion_entries_keys: "map fst (SetVersion_entries v tbl) = map fst tbl"
  by (induction tbl) auto

lemma loop_append:
  "QuerySendPacket_loop env m out (pre @ rest) =
     (case QuerySendPacket_loop env m out pre of
        (Some b, o1, pre') \<Rightarrow> (Some b, o1, pre' @ rest)
      | (None, o1, pre') \<Rightarrow>
          (case QuerySendPacket_loop env m o1 rest of (r, o2, rest') \<Rightarrow> (r, o2, pre' @ rest')))"
  by (induction pre arbitrary: out) (auto split: prod.splits option.splits)

lemma loop_keys:
  "QuerySendPacket_loop env m out tbl = (r, out1, tbl') \<Longrightarrow> map fst tbl' = map fst tbl"
proof (induction tbl arbitrary: out tbl' r out1)
  case Nil
  then show ?case by simp
next
  case (Cons p ps)
  obtain ready o1 c' where q: "ch_QuerySendPacket env out (snd p) = (ready, o1, c')"
    by (cases "ch_QuerySendPacket env out (snd p)") auto
  show ?case
  proof (cases ready)
    case True
    with Cons.prems q show ?thesis by auto
  next
    case False
    obtain r2 o2 ps' where l: "QuerySendPacket_loop env m o1 ps = (r2, o2, ps')"
      by (cases "QuerySendPacket_loop env m o1 ps") auto
    from Cons.IH [OF l] Cons.prems q False l show ?thesis by auto
  qed
qed

lemma loop_reads_only:
  "query_reads_only env \<Longrightarrow> snd (snd (QuerySendPacket_loop env m out tbl)) = tbl"
proof (induction tbl arbitrary: out)
  case Nil
  then show ?case by simp
next
  case (Cons p ps)
  obtain ready out1 c' where q: "ch_QuerySendPacket env out (snd p) = (ready, out1, c')"
    by (cases "ch_QuerySendPacket env out (snd p)") auto
  from Cons.prems q have c': "c' = snd p"
    unfolding query_reads_only_def by (metis snd_conv)
  show ?case using q c' Cons.IH [OF Cons.prems, of out1]
    by (auto split: prod.splits)
qed

text \<open>The multiplexer passed to the loop only decides the boolean it returns.\<close>
lemma loop_state:
  "QuerySendPacket_loop env m' out tbl =
     (case QuerySendPacket_loop env m out tbl of
        (r, out1, tbl') \<Rightarrow>
          (map_option (\<lambda>_. IsSendable m' (packet_type (out_header out1))) r, out1, tbl'))"
  by (induction tbl arbitrary: out) (auto split: prod.splits)

lemma loop_Some:
  "QuerySendPacket_loop env m out tbl = (Some b, out1, tbl') \<Longrightarrow>
     b = IsSendable m (packet_type (out_header out1))"
  by (induction tbl arbitrary: out tbl') (auto split: prod.splits if_splits)

lemma QuerySendPacket_sleep_empty:
  assumes "m_state m = Sleep" and "m_global_send_buffer m = []"
  shows "fst (QuerySendPacket env out m) = False"
proof -
  obtain r out1 tbl where l: "QuerySendPacket_loop env (lock m) out (m_channel_impl_map m) = (r, out1, tbl)"
    by (cases "QuerySendPacket_loop env (lock m) out (m_channel_impl_map m)") auto
  have "r = Some b \<Longrightarrow> b = False" for b
    using loop_Some [of env "lock m" out "m_channel_impl_map m" b out1 tbl] l assms(1)
    by (simp add: IsSendable_def lock_def)
  then show ?thesis using l assms(2)
    by (cases r) (auto simp: QuerySendPacket_def GetNextPacket_def lock_def)
qed

lemma QuerySendPacket_keeps:
  "m_global_send_buffer (snd (snd (QuerySendPacket env out m))) = m_global_send_buffer m
   \<and> m_state (snd (snd (QuerySendPacket env out m))) = m_state m
   \<and> m_version (snd (snd (QuerySendPacket env out m))) = m_version m
   \<and> m_event (snd (snd (QuerySendPacket env out m))) = m_event m
   \<and> m_task_manager (snd (snd (QuerySendPacket env out m))) = m_task_manager m
   \<and> map fst (m_channel_impl_map (snd (snd (QuerySendPacket env out m)))) = map fst (m_channel_impl_map m)"
proof (cases "m_global_send_buffer m")
  case Nil
  obtain r out1 tbl where l: "QuerySendPacket_loop env (lock m) out (m_channel_impl_map m) = (r, out1, tbl)"
    by (cases "QuerySendPacket_loop env (lock m) out (m_channel_impl_map m)") auto
  from loop_keys [OF l] l Nil show ?thesis
    by (cases r) (auto simp: QuerySendPacket_def GetNextPacket_def lock_def unlock_def)
next
  case (Cons p q)
  then show ?thesis
    by (simp add: QuerySendPacket_def GetNextPacket_def lock_def unlock_def)
qed

text \<open>With a query that only reads, the whole call changes nothing but the mutex history.\<close>
lemma QuerySendPacket_reads_only:
  assumes "query_reads_only env"
  shows "snd (snd (QuerySendPacket env out m)) = unlock (lock m)"
proof (cases "m_global_send_buffer m")
  case Nil
  obtain r out1 tbl where l: "QuerySendPacket_loop env (lock m) out (m_channel_impl_map m) = (r, out1, tbl)"
    by (cases "QuerySendPacket_loop env (lock m) out (m_channel_impl_map m)") auto
  from loop_reads_only [OF assms, of "lock m" out "m_channel_impl_map m"] l
  have "tbl = m_channel_impl_map m" by simp
  with l Nil show ?thesis
    by (cases r) (auto simp: QuerySendPacket_def GetNextPacket_def lock_def unlock_def)
next
  case (Cons p q)
  then show ?thesis
    by (simp add: QuerySendPacket_def GetNextPacket_def lock_def unlock_def)
qed

section \<open>Header validation\<close>

text \<open>
  C1. For a header whose signature is the protocol's, \<open>CheckReceivedHeader\<close> returns
  (it does not abort on the three kinds) \<open>ResultSuccess\<close> or \<open>ResultProtocolError\<close>, and
  succeeds exactly when: for Data, the version is the multiplexer's and the body size is
  at most \<^verbatim>\<open>sizeof(PacketBody)\<close>; for MaxData, the version is the multiplexer's and the
  body size is 0; for Error, the body size is 0, whatever the version.
\<close>
theorem CheckReceivedHeader_matrix:
  assumes "signature header = HtcGen2Signature env"
  shows "(packet_type header = PacketType_Data \<longrightarrow>
            CheckReceivedHeader env m header =
              Returned (if version header = m_version m \<and> unat (body_size header) \<le> sizeof_PacketBody env
                        then ResultSuccess else ResultProtocolError))
       \<and> (packet_type header = PacketType_MaxData \<longrightarrow>
            CheckReceivedHeader env m header =
              Returned (if version header = m_version m \<and> body_size header = 0
                        then ResultSuccess else ResultProtocolError))
       \<and> (packet_type header = PacketType_Error \<longrightarrow>
            CheckReceivedHeader env m header =
              Returned (if body_size header = 0 then ResultSuccess else ResultProtocolError))"
  using assms by (simp add: CheckReceivedHeader_def)

theorem CheckReceivedHeader_matrix_witness:
  "signature (sample_header PacketType_Error 3\<lparr>version := 9\<rparr>) = HtcGen2Signature sample_env
   \<and> CheckReceivedHeader sample_env (Mux_ctor sample_env) (sample_header PacketType_Error 3\<lparr>version := 9\<rparr>)
       = Returned ResultSuccess
   \<and> CheckReceivedHeader sample_env (Mux_ctor sample_env) (sample_header PacketType_Data 3\<lparr>body_size := 4097\<rparr>)
       = Returned ResultProtocolError
   \<and> CheckReceivedHeader sample_env (Mux_ctor sample_env) (sample_header PacketType_Data 3\<lparr>body_size := 4096\<rparr>)
       = Returned ResultSuccess
   \<and> CheckReceivedHeader sample_env (Mux_ctor sample_env) (sample_header PacketType_MaxData 3\<lparr>version := 9\<rparr>)
       = Returned ResultProtocolError"
  using CheckReceivedHeader_matrix [of "sample_header PacketType_Error 3\<lparr>version := 9\<rparr>" sample_env "Mux_ctor sample_env"]
    CheckReceivedHeader_matrix [of "sample_header PacketType_Data 3\<lparr>body_size := 4097\<rparr>" sample_env "Mux_ctor sample_env"]
    CheckReceivedHeader_matrix [of "sample_header PacketType_Data 3\<lparr>body_size := 4096\<rparr>" sample_env "Mux_ctor sample_env"]
    CheckReceivedHeader_matrix [of "sample_header PacketType_MaxData 3\<lparr>version := 9\<rparr>" sample_env "Mux_ctor sample_env"]
  by (simp add: sample_header_def sample_env_def Mux_ctor_def)

section \<open>Outbound selection\<close>

text \<open>
  C2. When the control queue is not empty, \<open>QuerySendPacket\<close> returns true with the
  header of the front control packet copied out and the body size set to 0; the body
  buffer, the control queue and the channel table are as before, whatever the table
  holds and whatever the channel engine is: no channel is asked.
\<close>
theorem QuerySendPacket_control_first:
  assumes "m_global_send_buffer m = p # q"
  shows "QuerySendPacket env out m =
           (True, out\<lparr>out_header := GetHeader p, out_body_size := 0\<rparr>, unlock (lock m))
       \<and> m_channel_impl_map (snd (snd (QuerySendPacket env out m))) = m_channel_impl_map m
       \<and> m_global_send_buffer (snd (snd (QuerySendPacket env out m))) = p # q"
  using assms by (simp add: QuerySendPacket_def GetNextPacket_def lock_def unlock_def)

theorem QuerySendPacket_control_first_witness:
  "m_global_send_buffer (sample_mux [(3, sample_channel 8)] [\<lparr>GetHeader = sample_header PacketType_Error 7\<rparr>] Normal)
     = [\<lparr>GetHeader = sample_header PacketType_Error 7\<rparr>]
   \<and> fst (QuerySendPacket sample_env sample_out
        (sample_mux [(3, sample_channel 8)] [\<lparr>GetHeader = sample_header PacketType_Error 7\<rparr>] Normal))
   \<and> fst (snd (QuerySendPacket sample_env sample_out
        (sample_mux [(3, sample_channel 8)] [\<lparr>GetHeader = sample_header PacketType_Error 7\<rparr>] Normal)))
      = \<lparr> out_header = sample_header PacketType_Error 7, out_body = [], out_body_size = 0 \<rparr>"
  using QuerySendPacket_control_first [of
      "sample_mux [(3, sample_channel 8)] [\<lparr>GetHeader = sample_header PacketType_Error 7\<rparr>] Normal"
      "\<lparr>GetHeader = sample_header PacketType_Error 7\<rparr>" "[]" sample_env sample_out]
  by (simp add: sample_mux_def sample_out_def)

text \<open>
  C3, as the code has it. In Sleep \<open>IsSendable\<close> is false for every kind, and with an
  empty control queue \<open>QuerySendPacket\<close> returns false whatever the channels have
  ready. A pending control packet is returned all the same: that path does not ask
  \<open>IsSendable\<close>. The call keeps the control queue, the state and the identifiers of
  the table; and when the engine's query only reads, the table is unchanged and the call
  made after \<open>UpdateMuxState\<close> has gone back to Normal returns true exactly when there
  was a control packet or a ready channel during Sleep, with the same packet in the
  buffers.
\<close>
theorem QuerySendPacket_sleep_gating:
  assumes "m_state m = Sleep"
  shows "IsSendable m t = False
       \<and> (m_global_send_buffer m = [] \<longrightarrow> fst (QuerySendPacket env out m) = False)
       \<and> (m_global_send_buffer m \<noteq> [] \<longrightarrow> fst (QuerySendPacket env out m) = True)
       \<and> m_global_send_buffer (snd (snd (QuerySendPacket env out m))) = m_global_send_buffer m
       \<and> m_state (snd (snd (QuerySendPacket env out m))) = Sleep
       \<and> map fst (m_channel_impl_map (snd (snd (QuerySendPacket env out m))))
           = map fst (m_channel_impl_map m)
       \<and> (query_reads_only env \<longrightarrow>
            m_channel_impl_map (snd (snd (QuerySendPacket env out m))) = m_channel_impl_map m
          \<and> m_state (UpdateMuxState False (snd (snd (QuerySendPacket env out m)))) = Normal
          \<and> fst (QuerySendPacket env out (UpdateMuxState False (snd (snd (QuerySendPacket env out m)))))
              = (m_global_send_buffer m \<noteq> []
                 \<or> fst (QuerySendPacket_loop env m out (m_channel_impl_map m)) \<noteq> None)
          \<and> fst (snd (QuerySendPacket env out (UpdateMuxState False (snd (snd (QuerySendPacket env out m))))))
              = fst (snd (QuerySendPacket env out m)))"
proof -
  let ?m' = "snd (snd (QuerySendPacket env out m))"
  have a: "IsSendable m t = False"
    using assms by (simp add: IsSendable_def)
  have b: "m_global_send_buffer m = [] \<longrightarrow> fst (QuerySendPacket env out m) = False"
    using QuerySendPacket_sleep_empty [OF assms] by simp
  have c: "m_global_send_buffer m \<noteq> [] \<longrightarrow> fst (QuerySendPacket env out m) = True"
    by (cases "m_global_send_buffer m")
       (simp_all add: QuerySendPacket_def GetNextPacket_def lock_def)
  have d: "m_global_send_buffer ?m' = m_global_send_buffer m
         \<and> m_state ?m' = Sleep
         \<and> map fst (m_channel_impl_map ?m') = map fst (m_channel_impl_map m)"
    using QuerySendPacket_keeps [of env out m] assms by simp
  have e: "m_channel_impl_map ?m' = m_channel_impl_map m
          \<and> m_state (UpdateMuxState False ?m') = Normal
          \<and> fst (QuerySendPacket env out (UpdateMuxState False ?m'))
              = (m_global_send_buffer m \<noteq> []
                 \<or> fst (QuerySendPacket_loop env m out (m_channel_impl_map m)) \<noteq> None)
          \<and> fst (snd (QuerySendPacket env out (UpdateMuxState False ?m')))
              = fst (snd (QuerySendPacket env out m))"
    if ro: "query_reads_only env"
  proof -
    have m': "?m' = unlock (lock m)"
      using QuerySendPacket_reads_only [OF ro] by simp
    define w where "w = UpdateMuxState False (unlock (lock m))"
    have w: "m_state w = Normal" "m_global_send_buffer w = m_global_send_buffer m"
      "m_channel_impl_map w = m_channel_impl_map m"
      by (simp_all add: w_def UpdateMuxState_def lock_def unlock_def)
    obtain r out1 tbl where l: "QuerySendPacket_loop env m out (m_channel_impl_map m) = (r, out1, tbl)"
      by (cases "QuerySendPacket_loop env m out (m_channel_impl_map m)") auto
    have lw: "QuerySendPacket_loop env (lock w) out (m_channel_impl_map m)
                = (map_option (\<lambda>_. True) r, out1, tbl)"
      using loop_state [of env "lock w" out "m_channel_impl_map m" m] l w(1)
      by (simp add: IsSendable_def lock_def)
    have lm: "QuerySendPacket_loop env (lock m) out (m_channel_impl_map m)
                = (map_option (\<lambda>_. False) r, out1, tbl)"
      using loop_state [of env "lock m" out "m_channel_impl_map m" m] l assms
      by (simp add: IsSendable_def lock_def)
    have q1: "fst (QuerySendPacket env out w)
              = (m_global_send_buffer m \<noteq> [] \<or> r \<noteq> None)"
      using lw w
      by (cases "m_global_send_buffer m"; cases r)
         (simp_all add: QuerySendPacket_def GetNextPacket_def lock_def)
    have q2: "fst (snd (QuerySendPacket env out w)) = fst (snd (QuerySendPacket env out m))"
      using lw lm w
      by (cases "m_global_send_buffer m"; cases r)
         (simp_all add: QuerySendPacket_def GetNextPacket_def lock_def)
    show ?thesis
      using m' w q1 q2 l by (simp add: w_def unlock_def lock_def)
  qed
  from a b c d e show ?thesis by blast
qed

lemma sample_env_reads_only: "query_reads_only sample_env"
  by (simp add: query_reads_only_def sample_env_def)

theorem QuerySendPacket_sleep_gating_witness:
  "m_state (sample_mux [(3, sample_channel 8)] [] Sleep) = Sleep
   \<and> query_reads_only sample_env
   \<and> fst (QuerySendPacket sample_env sample_out (sample_mux [(3, sample_channel 8)] [] Sleep)) = False
   \<and> fst (QuerySendPacket sample_env sample_out
        (UpdateMuxState False
          (snd (snd (QuerySendPacket sample_env sample_out (sample_mux [(3, sample_channel 8)] [] Sleep))))))
      = True"
proof -
  have s: "m_state (sample_mux [(3, sample_channel 8)] [] Sleep) = Sleep"
    by (simp add: sample_mux_def)
  have q: "m_global_send_buffer (sample_mux [(3, sample_channel 8)] [] Sleep) = []"
    by (simp add: sample_mux_def)
  have l: "fst (QuerySendPacket_loop sample_env (sample_mux [(3, sample_channel 8)] [] Sleep) sample_out
             (m_channel_impl_map (sample_mux [(3, sample_channel 8)] [] Sleep))) \<noteq> None"
    by (simp add: sample_mux_def sample_env_def sample_channel_def)
  show ?thesis
    using QuerySendPacket_sleep_gating [OF s, of PacketType_Data sample_env sample_out]
      sample_env_reads_only s q l
    by simp
qed

text \<open>
  Without the exception for control packets C3 does not hold: in Sleep, with a control
  packet pending, \<open>QuerySendPacket\<close> returns true.
\<close>
theorem QuerySendPacket_sleep_control_counterexample:
  "m_state (sample_mux [] [\<lparr>GetHeader = sample_header PacketType_Error 7\<rparr>] Sleep) = Sleep
   \<and> fst (QuerySendPacket sample_env sample_out
        (sample_mux [] [\<lparr>GetHeader = sample_header PacketType_Error 7\<rparr>] Sleep)) = True"
  by (simp add: sample_mux_def QuerySendPacket_def GetNextPacket_def lock_def)

section \<open>Inbound routing of an unknown channel\<close>

text \<open>
  C4, as the code has it. For a header whose channel is not in the table,
  \<open>ProcessReceivePacket\<close> returns \<open>ResultChannelNotExist\<close> and leaves the table alone.
  For Data and MaxData, when the factory delivers the Error packet for that channel
  identifier, exactly that packet is appended to the control queue and the event is
  signalled; when the factory fails, nothing is enqueued and the event is as before.
  For any other kind (Error) nothing is enqueued.
\<close>
theorem ProcessReceivePacket_unknown_channel:
  assumes "find_channel (channel header) (m_channel_impl_map m) = None"
  shows "fst (ProcessReceivePacket env header body bsize m) = ResultChannelNotExist
       \<and> m_channel_impl_map (snd (ProcessReceivePacket env header body bsize m)) = m_channel_impl_map m
       \<and> (packet_type header = PacketType_Data \<or> packet_type header = PacketType_MaxData \<longrightarrow>
            (case MakeErrorPacket env (channel header) of
               Some p \<Rightarrow>
                 m_global_send_buffer (snd (ProcessReceivePacket env header body bsize m))
                   = m_global_send_buffer m @ [p]
                 \<and> m_event (snd (ProcessReceivePacket env header body bsize m))
             | None \<Rightarrow>
                 m_global_send_buffer (snd (ProcessReceivePacket env header body bsize m))
                   = m_global_send_buffer m
                 \<and> m_event (snd (ProcessReceivePacket env header body bsize m)) = m_event m))
       \<and> (packet_type header \<noteq> PacketType_Data \<and> packet_type header \<noteq> PacketType_MaxData \<longrightarrow>
            m_global_send_buffer (snd (ProcessReceivePacket env header body bsize m))
              = m_global_send_buffer m
            \<and> m_event (snd (ProcessReceivePacket env header body bsize m)) = m_event m)"
  using assms
  by (cases "MakeErrorPacket env (channel header)")
     (simp_all add: ProcessReceivePacket_def SendErrorPacket_def AddPacket_def lock_def unlock_def Let_def)

theorem ProcessReceivePacket_unknown_channel_witness:
  "find_channel (channel (sample_header PacketType_MaxData 7)) (m_channel_impl_map (sample_mux [(3, sample_channel 8)] [] Normal)) = None
   \<and> fst (ProcessReceivePacket sample_env (sample_header PacketType_MaxData 7) [] 0
            (sample_mux [(3, sample_channel 8)] [] Normal)) = ResultChannelNotExist
   \<and> m_global_send_buffer (snd (ProcessReceivePacket sample_env (sample_header PacketType_MaxData 7) [] 0
            (sample_mux [(3, sample_channel 8)] [] Normal)))
       = [\<lparr>GetHeader = sample_header PacketType_Error 7\<rparr>]
   \<and> m_global_send_buffer (snd (ProcessReceivePacket sample_env (sample_header PacketType_Error 7) [] 0
            (sample_mux [(3, sample_channel 8)] [] Normal))) = []"
proof -
  have f: "find_channel (channel (sample_header t 7)) (m_channel_impl_map (sample_mux [(3, sample_channel 8)] [] Normal)) = None" for t
    by (simp add: sample_header_def sample_mux_def)
  have mk: "MakeErrorPacket sample_env (channel (sample_header PacketType_MaxData 7))
              = Some \<lparr>GetHeader = sample_header PacketType_Error 7\<rparr>"
    by (simp add: sample_env_def sample_header_def)
  have t: "packet_type (sample_header t 7) = t" for t
    by (simp add: sample_header_def)
  have q: "m_global_send_buffer (sample_mux [(3, sample_channel 8)] [] Normal) = []"
    by (simp add: sample_mux_def)
  show ?thesis
    using ProcessReceivePacket_unknown_channel [OF f [of PacketType_MaxData],
        where env = sample_env and body = "[]" and bsize = 0]
      ProcessReceivePacket_unknown_channel [OF f [of PacketType_Error],
        where env = sample_env and body = "[]" and bsize = 0]
      f [of PacketType_MaxData] mk t q
    by simp
qed

text \<open>
  Without the condition on the factory C4 does not hold: when the factory cannot
  allocate, a Data packet for an unknown channel gives \<open>ResultChannelNotExist\<close> and an
  empty control queue.
\<close>
theorem ProcessReceivePacket_unknown_channel_counterexample:
  "find_channel (channel (sample_header PacketType_Data 7)) (m_channel_impl_map (Mux_ctor failing_env)) = None
   \<and> packet_type (sample_header PacketType_Data 7) = PacketType_Data
   \<and> fst (ProcessReceivePacket failing_env (sample_header PacketType_Data 7) [] 0 (Mux_ctor failing_env))
       = ResultChannelNotExist
   \<and> m_global_send_buffer
       (snd (ProcessReceivePacket failing_env (sample_header PacketType_Data 7) [] 0 (Mux_ctor failing_env)))
       = []"
  by (simp add: ProcessReceivePacket_def SendErrorPacket_def AddPacket_def lock_def unlock_def
      failing_env_def sample_env_def sample_header_def Mux_ctor_def Let_def)

section \<open>Retiring a packet\<close>

text \<open>
  C6. Every call of \<open>RemovePacket\<close> makes one \<open>NotifySendReady\<close> call: the count of the
  multiplexer's notifications goes up by exactly one on each branch. A header of kind
  Error pops the control queue and leaves the table; any other kind leaves the queue and
  hands the removal to the channel when it is in the table, and changes nothing else
  when it is not.
\<close>
theorem RemovePacket_notifies_once:
  "send_ready_notifications (m_task_manager (RemovePacket env header m))
     = Suc (send_ready_notifications (m_task_manager m))
   \<and> (packet_type header = PacketType_Error \<longrightarrow>
        m_global_send_buffer (RemovePacket env header m) = gsb_RemovePacket (m_global_send_buffer m)
      \<and> m_channel_impl_map (RemovePacket env header m) = m_channel_impl_map m)
   \<and> (packet_type header \<noteq> PacketType_Error \<longrightarrow>
        m_global_send_buffer (RemovePacket env header m) = m_global_send_buffer m
      \<and> m_channel_impl_map (RemovePacket env header m)
          = (case find_channel (channel header) (m_channel_impl_map m) of
               Some c \<Rightarrow> store_channel (channel header) (ch_RemovePacket env header c) (m_channel_impl_map m)
             | None \<Rightarrow> m_channel_impl_map m))"
  by (cases "find_channel (channel header) (m_channel_impl_map m)")
     (simp_all add: RemovePacket_def NotifySendReady_def lock_def unlock_def Let_def)

theorem RemovePacket_notifies_once_witness:
  "send_ready_notifications (m_task_manager
     (RemovePacket sample_env (sample_header PacketType_Error 7)
        (sample_mux [(3, sample_channel 8)] [\<lparr>GetHeader = sample_header PacketType_Error 7\<rparr>] Normal))) = 1
   \<and> m_global_send_buffer
     (RemovePacket sample_env (sample_header PacketType_Error 7)
        (sample_mux [(3, sample_channel 8)] [\<lparr>GetHeader = sample_header PacketType_Error 7\<rparr>] Normal)) = []
   \<and> send_ready_notifications (m_task_manager
     (RemovePacket sample_env (sample_header PacketType_Data 3)
        (sample_mux [(3, sample_channel 8)] [] Normal))) = 1
   \<and> m_channel_impl_map
     (RemovePacket sample_env (sample_header PacketType_Data 3)
        (sample_mux [(3, sample_channel 8)] [] Normal)) = [(3, sample_channel 0)]
   \<and> send_ready_notifications (m_task_manager
     (RemovePacket sample_env (sample_header PacketType_Data 9)
        (sample_mux [(3, sample_channel 8)] [] Normal))) = 1"
  using RemovePacket_notifies_once [of sample_env "sample_header PacketType_Error 7"
      "sample_mux [(3, sample_channel 8)] [\<lparr>GetHeader = sample_header PacketType_Error 7\<rparr>] Normal"]
    RemovePacket_notifies_once [of sample_env "sample_header PacketType_Data 3"
      "sample_mux [(3, sample_channel 8)] [] Normal"]
    RemovePacket_notifies_once [of sample_env "sample_header PacketType_Data 9"
      "sample_mux [(3, sample_channel 8)] [] Normal"]
  by (simp add: sample_mux_def sample_header_def sample_env_def sample_channel_def Mux_ctor_def
      gsb_RemovePacket_def)

section \<open>Version propagation\<close>

lemma store_channel_versions:
  "\<forall>p \<in> set tbl. channel_version (snd p) = v \<Longrightarrow> channel_version c = v \<Longrightarrow>
     \<forall>p \<in> set (store_channel k c tbl). channel_version (snd p) = v"
  using store_channel_set [of k c tbl] by auto

lemma find_channel_version:
  "\<forall>p \<in> set tbl. channel_version (snd p) = v \<Longrightarrow> find_channel k tbl = Some c \<Longrightarrow>
     channel_version c = v"
  using find_channel_in_set [of k tbl c] by auto

lemma loop_versions:
  assumes "engine_keeps_version env"
  shows "\<forall>p \<in> set tbl. channel_version (snd p) = v \<Longrightarrow>
     \<forall>p \<in> set (snd (snd (QuerySendPacket_loop env m out tbl))). channel_version (snd p) = v"
proof (induction tbl arbitrary: out)
  case Nil
  then show ?case by simp
next
  case (Cons p ps)
  obtain ready out1 c' where q: "ch_QuerySendPacket env out (snd p) = (ready, out1, c')"
    by (cases "ch_QuerySendPacket env out (snd p)") auto
  have "channel_version (snd (snd (ch_QuerySendPacket env out (snd p)))) = channel_version (snd p)"
    using assms unfolding engine_keeps_version_def by blast
  with q Cons.prems have c': "channel_version c' = v" by simp
  from Cons.prems have ps: "\<forall>p \<in> set ps. channel_version (snd p) = v" by simp
  show ?case
    using q c' ps Cons.IH [OF ps, of out1] by (auto split: prod.splits)
qed

lemma UpdateState_entries_versions:
  assumes "engine_keeps_version env"
  shows "\<forall>p \<in> set tbl. channel_version (snd p) = v \<Longrightarrow>
     \<forall>p \<in> set (UpdateState_entries env tbl). channel_version (snd p) = v"
proof (induction tbl)
  case Nil
  then show ?case by simp
next
  case (Cons p ps)
  have "channel_version (ch_UpdateState env (snd p)) = channel_version (snd p)"
    using assms unfolding engine_keeps_version_def by blast
  with Cons show ?case by simp
qed

lemma SetVersion_consistent: "version_consistent (SetVersion v m)"
  using SetVersion_entries_version [of _ v "m_channel_impl_map m"]
  by (auto simp: version_consistent_def SetVersion_def Let_def)

lemma ProcessReceivePacket_consistent:
  assumes "engine_keeps_version env" and "version_consistent m"
  shows "version_consistent (snd (ProcessReceivePacket env header body bsize m))"
proof (cases "find_channel (channel header) (m_channel_impl_map m)")
  case None
  then show ?thesis using assms(2)
    by (cases "MakeErrorPacket env (channel header)")
       (auto simp: version_consistent_def ProcessReceivePacket_def SendErrorPacket_def AddPacket_def
          lock_def unlock_def Let_def)
next
  case (Some c)
  obtain r c' where p: "ch_ProcessReceivePacket env header body bsize c = (r, c')"
    by (cases "ch_ProcessReceivePacket env header body bsize c") auto
  have "channel_version (snd (ch_ProcessReceivePacket env header body bsize c)) = channel_version c"
    using assms(1) unfolding engine_keeps_version_def by blast
  moreover have "channel_version c = m_version m"
    using find_channel_version [OF _ Some] assms(2) by (simp add: version_consistent_def)
  ultimately have "channel_version c' = m_version m" using p by simp
  from store_channel_versions [OF _ this, of "m_channel_impl_map m" "channel header"] assms(2)
  show ?thesis using Some p
    by (simp add: version_consistent_def ProcessReceivePacket_def lock_def unlock_def Let_def)
qed

lemma QuerySendPacket_consistent:
  assumes "engine_keeps_version env" and "version_consistent m"
  shows "version_consistent (snd (snd (QuerySendPacket env out m)))"
proof (cases "m_global_send_buffer m")
  case Nil
  obtain r out1 tbl where l: "QuerySendPacket_loop env (lock m) out (m_channel_impl_map m) = (r, out1, tbl)"
    by (cases "QuerySendPacket_loop env (lock m) out (m_channel_impl_map m)") auto
  from loop_versions [OF assms(1), of "m_channel_impl_map m" "m_version m" "lock m" out] assms(2) l
  have "\<forall>p \<in> set tbl. channel_version (snd p) = m_version m"
    by (simp add: version_consistent_def)
  with l Nil show ?thesis
    by (cases r) (simp_all add: version_consistent_def QuerySendPacket_def GetNextPacket_def
        lock_def unlock_def Let_def)
next
  case (Cons p q)
  then show ?thesis using assms(2)
    by (simp add: version_consistent_def QuerySendPacket_def GetNextPacket_def lock_def unlock_def Let_def)
qed

lemma RemovePacket_consistent:
  assumes "engine_keeps_version env" and "version_consistent m"
  shows "version_consistent (RemovePacket env header m)"
proof (cases "find_channel (channel header) (m_channel_impl_map m)")
  case None
  then show ?thesis using assms(2)
    by (simp add: version_consistent_def RemovePacket_def lock_def unlock_def Let_def)
next
  case (Some c)
  have "channel_version (ch_RemovePacket env header c) = channel_version c"
    using assms(1) unfolding engine_keeps_version_def by blast
  moreover have "channel_version c = m_version m"
    using find_channel_version [OF _ Some] assms(2) by (simp add: version_consistent_def)
  ultimately have "channel_version (ch_RemovePacket env header c) = m_version m" by simp
  from store_channel_versions [OF _ this, of "m_channel_impl_map m" "channel header"] assms(2)
  show ?thesis using Some
    by (simp add: version_consistent_def RemovePacket_def lock_def unlock_def Let_def)
qed

lemma UpdateChannelState_consistent:
  assumes "engine_keeps_version env" and "version_consistent m"
  shows "version_consistent (UpdateChannelState env m)"
  using UpdateState_entries_versions [OF assms(1), of "m_channel_impl_map m" "m_version m"] assms(2)
  by (simp add: version_consistent_def UpdateChannelState_def lock_def unlock_def Let_def)

lemma SendErrorPacket_consistent:
  "version_consistent m \<Longrightarrow> version_consistent (snd (SendErrorPacket env k m))"
  by (cases "MakeErrorPacket env k")
     (simp_all add: version_consistent_def SendErrorPacket_def AddPacket_def Let_def)

lemma Open_returns: "\<exists>r m'. Open env k m = Returned (r, m')"
  by (cases "find_channel k (m_channel_impl_map m)"; cases "AllocateChannel env (m_channel_impl_map m) k")
     (auto simp: Open_def Exists_def AddChannel_def lock_def unlock_def Let_def
        find_channel_append_new)

lemma Open_new_entry:
  assumes "Open env k m = Returned (ResultSuccess, m')"
  shows "\<exists>c0. AllocateChannel env (m_channel_impl_map m) k = Some c0
       \<and> find_channel k (m_channel_impl_map m) = None
       \<and> m_channel_impl_map m' = m_channel_impl_map m @ [(k, ch_SetVersion (m_version m) c0)]
       \<and> m_version m' = m_version m"
proof (cases "find_channel k (m_channel_impl_map m)")
  case (Some c)
  with assms show ?thesis
    by (simp add: Open_def Exists_def lock_def Let_def)
next
  case None
  show ?thesis
  proof (cases "AllocateChannel env (m_channel_impl_map m) k")
    case n: None
    with None assms show ?thesis
      by (simp add: Open_def Exists_def AddChannel_def lock_def Let_def)
  next
    case (Some c0)
    with None assms find_channel_append_new [OF None, of c0] store_channel_append_new [OF None]
    show ?thesis
      by (auto simp: Open_def Exists_def AddChannel_def lock_def unlock_def Let_def)
  qed
qed

lemma Open_fail_table:
  "Open env k m = Returned (r, m') \<Longrightarrow> r \<noteq> ResultSuccess \<Longrightarrow>
     m_channel_impl_map m' = m_channel_impl_map m \<and> m_version m' = m_version m"
  by (cases "find_channel k (m_channel_impl_map m)"; cases "AllocateChannel env (m_channel_impl_map m) k")
     (auto simp: Open_def Exists_def AddChannel_def lock_def unlock_def Let_def
        find_channel_append_new)

lemma Open_consistent:
  assumes "version_consistent m" and "Open env k m = Returned (r, m')"
  shows "version_consistent m'"
proof (cases "r = ResultSuccess")
  case True
  from Open_new_entry [of env k m m'] assms(2) True obtain c0 where
    "m_channel_impl_map m' = m_channel_impl_map m @ [(k, ch_SetVersion (m_version m) c0)]"
    "m_version m' = m_version m"
    by blast
  then show ?thesis using assms(1)
    by (auto simp: version_consistent_def ch_SetVersion_def)
next
  case False
  from Open_fail_table [OF assms(2) False] assms(1)
  show ?thesis by (simp add: version_consistent_def)
qed

lemma setter_consistent:
  assumes "version_consistent m" and "find_channel k (m_channel_impl_map m) = Some c"
    and "channel_version c' = channel_version c"
  shows "version_consistent (unlock (lock m\<lparr>m_channel_impl_map := store_channel k c' (m_channel_impl_map m)\<rparr>))"
proof -
  have "channel_version c = m_version m"
    using find_channel_version [OF _ assms(2)] assms(1) by (simp add: version_consistent_def)
  with assms(3) have "channel_version c' = m_version m" by simp
  from store_channel_versions [OF _ this, of "m_channel_impl_map m" k] assms(1)
  show ?thesis by (simp add: version_consistent_def lock_def unlock_def)
qed

lemma reachable_consistent:
  assumes "engine_keeps_version env" and "reachable env m"
  shows "version_consistent m"
  using assms(2)
proof (induction rule: reachable.induct)
  case r_ctor
  show ?case by (simp add: version_consistent_def Mux_ctor_def)
next
  case (r_SetVersion m v)
  show ?case by (rule SetVersion_consistent)
next
  case (r_ProcessReceivePacket m header body bsize)
  then show ?case using ProcessReceivePacket_consistent [OF assms(1)] by blast
next
  case (r_QuerySendPacket m out)
  then show ?case using QuerySendPacket_consistent [OF assms(1)] by blast
next
  case (r_RemovePacket m header)
  then show ?case using RemovePacket_consistent [OF assms(1)] by blast
next
  case (r_UpdateChannelState m)
  then show ?case using UpdateChannelState_consistent [OF assms(1)] by blast
next
  case (r_UpdateMuxState m is_sleeping)
  then show ?case
    by (simp add: version_consistent_def UpdateMuxState_def lock_def unlock_def Let_def)
next
  case (r_CheckChannelExist m k)
  then show ?case by (simp add: CheckChannelExist_def)
next
  case (r_SendErrorPacket m k)
  then show ?case using SendErrorPacket_consistent by blast
next
  case (r_Open m k r m')
  then show ?case using Open_consistent by blast
next
  case (r_GetTaskEvent m task_id)
  then show ?case
    by (simp add: version_consistent_def GetTaskEvent_def lock_def unlock_def Let_def)
next
  case (r_SetSendBuffer m k buf buf_size max_packet_size m')
  from r_SetSendBuffer.hyps(2) obtain c where c: "find_channel k (m_channel_impl_map m) = Some c"
    by (cases "find_channel k (m_channel_impl_map m)")
       (simp_all add: SetSendBuffer_def lock_def Let_def)
  have "channel_version (ch_SetSendBuffer env buf buf_size max_packet_size c) = channel_version c"
    using assms(1) unfolding engine_keeps_version_def by blast
  from setter_consistent [OF r_SetSendBuffer.IH c this] r_SetSendBuffer.hyps(2) c
  show ?case by (simp add: SetSendBuffer_def lock_def unlock_def Let_def)
next
  case (r_SetSendBufferWithData m k buf buf_size max_packet_size m')
  from r_SetSendBufferWithData.hyps(2) obtain c where c: "find_channel k (m_channel_impl_map m) = Some c"
    by (cases "find_channel k (m_channel_impl_map m)")
       (simp_all add: SetSendBufferWithData_def lock_def Let_def)
  have "channel_version (ch_SetSendBufferWithData env buf buf_size max_packet_size c) = channel_version c"
    using assms(1) unfolding engine_keeps_version_def by blast
  from setter_consistent [OF r_SetSendBufferWithData.IH c this] r_SetSendBufferWithData.hyps(2) c
  show ?case by (simp add: SetSendBufferWithData_def lock_def unlock_def Let_def)
next
  case (r_SetReceiveBuffer m k buf buf_size m')
  from r_SetReceiveBuffer.hyps(2) obtain c where c: "find_channel k (m_channel_impl_map m) = Some c"
    by (cases "find_channel k (m_channel_impl_map m)")
       (simp_all add: SetReceiveBuffer_def lock_def Let_def)
  have "channel_version (ch_SetReceiveBuffer env buf buf_size c) = channel_version c"
    using assms(1) unfolding engine_keeps_version_def by blast
  from setter_consistent [OF r_SetReceiveBuffer.IH c this] r_SetReceiveBuffer.hyps(2) c
  show ?case by (simp add: SetReceiveBuffer_def lock_def unlock_def Let_def)
qed

lemma sample_env_keeps_version: "engine_keeps_version sample_env"
  by (simp add: engine_keeps_version_def sample_env_def)

text \<open>
  C7. After \<open>SetVersion v\<close> the multiplexer's version is \<open>v\<close> and every channel of the
  table has version \<open>v\<close> (the identifiers are as before). \<open>Open\<close> always returns, and
  when it succeeds the new entry carries the multiplexer's version. So in every state
  reached from the constructor, every channel's version is the multiplexer's, given that
  the engine's other operations leave a channel's version alone.
\<close>
theorem version_propagation:
  "m_version (SetVersion v m) = v
   \<and> (\<forall>p \<in> set (m_channel_impl_map (SetVersion v m)). channel_version (snd p) = v)
   \<and> map fst (m_channel_impl_map (SetVersion v m)) = map fst (m_channel_impl_map m)
   \<and> (\<exists>res m'. Open env k m = Returned (res, m'))
   \<and> (\<forall>m'. Open env k m = Returned (ResultSuccess, m') \<longrightarrow>
        (\<exists>c. find_channel k (m_channel_impl_map m') = Some c \<and> channel_version c = m_version m)
        \<and> m_version m' = m_version m)
   \<and> (engine_keeps_version env \<and> reachable env r \<longrightarrow>
        (\<forall>p \<in> set (m_channel_impl_map r). channel_version (snd p) = m_version r))"
proof -
  have a: "m_version (SetVersion v m) = v"
    by (simp add: SetVersion_def Let_def)
  have b: "\<forall>p \<in> set (m_channel_impl_map (SetVersion v m)). channel_version (snd p) = v"
    using SetVersion_entries_version [of _ v "m_channel_impl_map m"]
    by (auto simp: SetVersion_def Let_def)
  have c: "map fst (m_channel_impl_map (SetVersion v m)) = map fst (m_channel_impl_map m)"
    by (simp add: SetVersion_def Let_def SetVersion_entries_keys)
  have d: "(\<exists>c. find_channel k (m_channel_impl_map m') = Some c \<and> channel_version c = m_version m)
        \<and> m_version m' = m_version m"
    if ok: "Open env k m = Returned (ResultSuccess, m')" for m'
  proof -
    from Open_new_entry [OF ok] obtain c0 where
      n: "find_channel k (m_channel_impl_map m) = None"
      and t: "m_channel_impl_map m' = m_channel_impl_map m @ [(k, ch_SetVersion (m_version m) c0)]"
      and v: "m_version m' = m_version m"
      by blast
    have "find_channel k (m_channel_impl_map m') = Some (ch_SetVersion (m_version m) c0)"
      using find_channel_append_new [OF n] t by simp
    moreover have "channel_version (ch_SetVersion (m_version m) c0) = m_version m"
      by (simp add: ch_SetVersion_def)
    ultimately show ?thesis using v by blast
  qed
  have e: "\<forall>p \<in> set (m_channel_impl_map r). channel_version (snd p) = m_version r"
    if "engine_keeps_version env \<and> reachable env r"
    using reachable_consistent [of env r] that by (simp add: version_consistent_def)
  from a b c d e Open_returns [of env k m] show ?thesis by blast
qed

theorem version_propagation_witness:
  "Open sample_env 4 (SetVersion 9 (sample_mux [(3, sample_channel 8)] [] Normal))
     = Returned (ResultSuccess,
         unlock ((lock (SetVersion 9 (sample_mux [(3, sample_channel 8)] [] Normal)))
           \<lparr>m_channel_impl_map :=
              [(3, \<lparr>channel_version = 9, engine = 8\<rparr>), (4, \<lparr>channel_version = 9, engine = 0\<rparr>)]\<rparr>))
   \<and> engine_keeps_version sample_env
   \<and> reachable sample_env
       (unlock ((lock (SetVersion 9 (Mux_ctor sample_env)))
           \<lparr>m_channel_impl_map := [(4, \<lparr>channel_version = 9, engine = 0\<rparr>)]\<rparr>))
   \<and> m_version (unlock ((lock (SetVersion 9 (Mux_ctor sample_env)))
           \<lparr>m_channel_impl_map := [(4, \<lparr>channel_version = 9, engine = 0\<rparr>)]\<rparr>)) = 9
   \<and> m_channel_impl_map (SetVersion 9 (sample_mux [(3, sample_channel 8)] [] Normal))
       = [(3, \<lparr>channel_version = 9, engine = 8\<rparr>)]
   \<and> find_channel 4 [(3, \<lparr>channel_version = 9, engine = 8\<rparr>), (4, \<lparr>channel_version = 9, engine = 0::nat\<rparr>)]
       = Some \<lparr>channel_version = 9, engine = 0\<rparr>"
proof -
  let ?m = "SetVersion 9 (sample_mux [(3, sample_channel 8)] [] Normal)"
  let ?r = "unlock ((lock (SetVersion 9 (Mux_ctor sample_env)))
           \<lparr>m_channel_impl_map := [(4, \<lparr>channel_version = 9, engine = 0\<rparr>)]\<rparr>)"
  have o0: "Open sample_env 4 (SetVersion 9 (Mux_ctor sample_env)) = Returned (ResultSuccess, ?r)"
    by (simp add: Open_def Exists_def AddChannel_def SetVersion_def sample_env_def
        Mux_ctor_def lock_def unlock_def guarded_state_def Let_def ch_SetVersion_def)
  have r: "reachable sample_env ?r"
    by (rule reachable.r_Open [OF reachable.r_SetVersion [OF reachable.r_ctor] o0])
  have v: "m_version ?r = 9"
    by (simp add: SetVersion_def lock_def unlock_def Let_def)
  have o: "Open sample_env 4 ?m
     = Returned (ResultSuccess,
         unlock ((lock ?m)
           \<lparr>m_channel_impl_map :=
              [(3, \<lparr>channel_version = 9, engine = 8\<rparr>), (4, \<lparr>channel_version = 9, engine = 0\<rparr>)]\<rparr>))"
    by (simp add: Open_def Exists_def AddChannel_def SetVersion_def sample_mux_def sample_env_def
        Mux_ctor_def sample_channel_def lock_def unlock_def guarded_state_def Let_def ch_SetVersion_def)
  have t1: "m_channel_impl_map (SetVersion 9 (sample_mux [(3, sample_channel 8)] [] Normal))
       = [(3, \<lparr>channel_version = 9, engine = 8\<rparr>)]"
    by (simp add: SetVersion_def sample_mux_def sample_env_def
        Mux_ctor_def sample_channel_def Let_def ch_SetVersion_def)
  show ?thesis
    using version_propagation [of 9 "sample_mux [(3, sample_channel 8)] [] Normal" sample_env 4 ?r]
      version_propagation [of 9 ?m sample_env 4 ?r]
      sample_env_keeps_version r v o t1
    by simp
qed

section \<open>Emitting an Error packet\<close>

text \<open>
  C8, as the code has it. \<open>SendErrorPacket\<close> returns what \<open>AddPacket\<close> returned, so a
  factory that fails is reported to the caller as \<open>ResultAllocationFailure\<close>.
  \<open>ProcessReceivePacket\<close> for an unknown channel drops the result of its
  \<open>SendErrorPacket\<close> call: it returns \<open>ResultChannelNotExist\<close> whether or not the reply
  was enqueued.
\<close>
theorem SendErrorPacket_propagates:
  "fst (SendErrorPacket env k m) = fst (AddPacket (MakeErrorPacket env k) (m_global_send_buffer m))
   \<and> (MakeErrorPacket env k = None \<longrightarrow> fst (SendErrorPacket env k m) = ResultAllocationFailure)
   \<and> (find_channel (channel header) (m_channel_impl_map m) = None \<longrightarrow>
        fst (ProcessReceivePacket env header body bsize m) = ResultChannelNotExist)"
proof -
  have a: "fst (SendErrorPacket env k m) = fst (AddPacket (MakeErrorPacket env k) (m_global_send_buffer m))"
    by (cases "MakeErrorPacket env k") (simp_all add: SendErrorPacket_def AddPacket_def Let_def)
  have b: "MakeErrorPacket env k = None \<longrightarrow> fst (SendErrorPacket env k m) = ResultAllocationFailure"
    by (simp add: SendErrorPacket_def AddPacket_def Let_def)
  have c: "find_channel (channel header) (m_channel_impl_map m) = None \<longrightarrow>
        fst (ProcessReceivePacket env header body bsize m) = ResultChannelNotExist"
    by (simp add: ProcessReceivePacket_def lock_def Let_def)
  from a b c show ?thesis by blast
qed

theorem SendErrorPacket_propagates_witness:
  "MakeErrorPacket failing_env 7 = None
   \<and> fst (SendErrorPacket failing_env 7 (Mux_ctor failing_env)) = ResultAllocationFailure
   \<and> find_channel (channel (sample_header PacketType_Data 7)) (m_channel_impl_map (Mux_ctor failing_env)) = None
   \<and> fst (ProcessReceivePacket failing_env (sample_header PacketType_Data 7) [] 0 (Mux_ctor failing_env))
       = ResultChannelNotExist"
  using SendErrorPacket_propagates [of failing_env 7 "Mux_ctor failing_env"
      "sample_header PacketType_Data 7" "[]" 0]
  by (simp add: failing_env_def sample_env_def Mux_ctor_def AddPacket_def)

text \<open>
  The failure does not reach the caller of \<open>ProcessReceivePacket\<close>: with a factory that
  cannot allocate, \<open>SendErrorPacket\<close> fails for the unknown channel of a Data packet, and
  \<open>ProcessReceivePacket\<close> returns what it returns when the reply was enqueued.
\<close>
theorem ProcessReceivePacket_swallows_counterexample:
  "packet_type (sample_header PacketType_Data 7) = PacketType_Data
   \<and> find_channel (channel (sample_header PacketType_Data 7))
       (m_channel_impl_map (lock (Mux_ctor failing_env))) = None
   \<and> fst (SendErrorPacket failing_env (channel (sample_header PacketType_Data 7))
            (lock (Mux_ctor failing_env))) = ResultAllocationFailure
   \<and> fst (ProcessReceivePacket failing_env (sample_header PacketType_Data 7) [] 0 (Mux_ctor failing_env))
       = ResultChannelNotExist
   \<and> fst (ProcessReceivePacket failing_env (sample_header PacketType_Data 7) [] 0 (Mux_ctor failing_env))
       = fst (ProcessReceivePacket sample_env (sample_header PacketType_Data 7) [] 0 (Mux_ctor sample_env))"
  by (simp add: ProcessReceivePacket_def SendErrorPacket_def AddPacket_def lock_def unlock_def
      failing_env_def sample_env_def sample_header_def Mux_ctor_def Let_def)

text \<open>
  C10. \<open>SendErrorPacket\<close> returns the result of \<open>AddPacket\<close>. When that is a failure the
  multiplexer is exactly as before: the event is not signalled and the control queue
  holds no new packet. When it is success the factory's packet is the new last element
  of the queue and the event is signalled.
\<close>
theorem SendErrorPacket_atomic:
  "fst (SendErrorPacket env k m) = fst (AddPacket (MakeErrorPacket env k) (m_global_send_buffer m))
   \<and> (fst (SendErrorPacket env k m) \<noteq> ResultSuccess \<longrightarrow> snd (SendErrorPacket env k m) = m)
   \<and> (fst (SendErrorPacket env k m) = ResultSuccess \<longrightarrow>
        m_event (snd (SendErrorPacket env k m))
      \<and> (\<exists>p. MakeErrorPacket env k = Some p
             \<and> m_global_send_buffer (snd (SendErrorPacket env k m)) = m_global_send_buffer m @ [p]))"
  by (cases "MakeErrorPacket env k")
     (simp_all add: SendErrorPacket_def AddPacket_def Let_def)

theorem SendErrorPacket_atomic_witness:
  "fst (SendErrorPacket failing_env 7 (Mux_ctor failing_env)) \<noteq> ResultSuccess
   \<and> snd (SendErrorPacket failing_env 7 (Mux_ctor failing_env)) = Mux_ctor failing_env
   \<and> m_event (Mux_ctor failing_env) = False
   \<and> fst (SendErrorPacket sample_env 7 (Mux_ctor sample_env)) = ResultSuccess
   \<and> m_event (snd (SendErrorPacket sample_env 7 (Mux_ctor sample_env)))
   \<and> m_global_send_buffer (snd (SendErrorPacket sample_env 7 (Mux_ctor sample_env)))
       = [\<lparr>GetHeader = sample_header PacketType_Error 7\<rparr>]"
proof -
  have f: "fst (SendErrorPacket failing_env 7 (Mux_ctor failing_env)) \<noteq> ResultSuccess"
    by (simp add: SendErrorPacket_def AddPacket_def failing_env_def sample_env_def Let_def)
  have s: "fst (SendErrorPacket sample_env 7 (Mux_ctor sample_env)) = ResultSuccess"
    by (simp add: SendErrorPacket_def AddPacket_def sample_env_def Let_def)
  have mk: "MakeErrorPacket sample_env 7 = Some \<lparr>GetHeader = sample_header PacketType_Error 7\<rparr>"
    by (simp add: sample_env_def)
  have q: "m_global_send_buffer (Mux_ctor sample_env) = []" "m_event (Mux_ctor failing_env) = False"
    by (simp_all add: Mux_ctor_def)
  show ?thesis
    using SendErrorPacket_atomic [of failing_env 7 "Mux_ctor failing_env"]
      SendErrorPacket_atomic [of sample_env 7 "Mux_ctor sample_env"] f s mk q
    by simp
qed

section \<open>The scan of the channel table\<close>

text \<open>
  The scan and the answers of the channels: the scan runs to the end of a list exactly
  when its channels, asked in order, all answer that they have nothing to send.
\<close>
lemma all_decline_loop:
  "all_decline env out pre = Some (out1, pre') \<Longrightarrow>
     QuerySendPacket_loop env m out pre = (None, out1, pre')"
proof (induction pre arbitrary: out out1 pre')
  case Nil
  then show ?case by simp
next
  case (Cons p ps)
  obtain ready o1 c' where q: "ch_QuerySendPacket env out (snd p) = (ready, o1, c')"
    by (cases "ch_QuerySendPacket env out (snd p)") auto
  from Cons.prems q have nr: "\<not> ready" by (auto split: if_splits)
  from Cons.prems q nr obtain o2 ps' where
    d: "all_decline env o1 ps = Some (o2, ps')" and e: "out1 = o2" "pre' = (fst p, c') # ps'"
    by (auto split: option.splits)
  from Cons.IH [OF d] q nr e show ?case by simp
qed

lemma loop_None_all_decline:
  "QuerySendPacket_loop env m out tbl = (None, out1, tbl') \<Longrightarrow>
     all_decline env out tbl = Some (out1, tbl')"
proof (induction tbl arbitrary: out out1 tbl')
  case Nil
  then show ?case by simp
next
  case (Cons p ps)
  obtain ready o1 c' where q: "ch_QuerySendPacket env out (snd p) = (ready, o1, c')"
    by (cases "ch_QuerySendPacket env out (snd p)") auto
  from Cons.prems q have nr: "\<not> ready" by (auto split: if_splits)
  obtain r o2 ps' where l: "QuerySendPacket_loop env m o1 ps = (r, o2, ps')"
    by (cases "QuerySendPacket_loop env m o1 ps") auto
  from Cons.prems q nr l have e: "r = None" "out1 = o2" "tbl' = (fst p, c') # ps'" by auto
  from Cons.IH [of o1 o2 ps'] l e q nr show ?case by simp
qed

lemma all_decline_length:
  "all_decline env out pre = Some (out1, pre') \<Longrightarrow> length pre' = length pre"
proof (induction pre arbitrary: out out1 pre')
  case Nil
  then show ?case by simp
next
  case (Cons p ps)
  obtain ready o1 c' where q: "ch_QuerySendPacket env out (snd p) = (ready, o1, c')"
    by (cases "ch_QuerySendPacket env out (snd p)") auto
  from Cons.prems q obtain o2 ps' where
    d: "all_decline env o1 ps = Some (o2, ps')" and e: "pre' = (fst p, c') # ps'"
    by (auto split: option.splits if_splits)
  from Cons.IH [OF d] e show ?case by simp
qed

lemma never_ready_all_decline:
  "\<forall>p \<in> set pre. \<forall>bufs. \<not> fst (ch_QuerySendPacket env bufs (snd p)) \<Longrightarrow>
     \<exists>out1 pre'. all_decline env out pre = Some (out1, pre')"
proof (induction pre arbitrary: out)
  case Nil
  then show ?case by simp
next
  case (Cons p ps)
  obtain ready o1 c' where q: "ch_QuerySendPacket env out (snd p) = (ready, o1, c')"
    by (cases "ch_QuerySendPacket env out (snd p)") auto
  from Cons.prems have "\<not> fst (ch_QuerySendPacket env out (snd p))" by simp
  with q have nr: "\<not> ready" by simp
  from Cons.prems have "\<forall>p \<in> set ps. \<forall>bufs. \<not> fst (ch_QuerySendPacket env bufs (snd p))" by simp
  from Cons.IH [OF this, of o1] obtain o2 ps' where "all_decline env o1 ps = Some (o2, ps')"
    by blast
  with q nr show ?case by simp
qed

lemma first_ready_general:
  assumes "m_global_send_buffer m = []"
    and "m_channel_impl_map m = pre @ (k, c) # post"
    and "all_decline env out pre = Some (out1, pre')"
    and "ch_QuerySendPacket env out1 c = (True, out2, c')"
  shows "QuerySendPacket env out m =
           (IsSendable m (packet_type (out_header out2)), out2,
            unlock (lock m\<lparr>m_channel_impl_map := pre' @ (k, c') # post\<rparr>))"
proof -
  have s: "IsSendable (lock m) t = IsSendable m t" for t
    by (simp add: IsSendable_def lock_def)
  have p: "QuerySendPacket_loop env (lock m) out pre = (None, out1, pre')"
    by (rule all_decline_loop [OF assms(3)])
  have l: "QuerySendPacket_loop env (lock m) out (pre @ (k, c) # post)
             = (Some (IsSendable m (packet_type (out_header out2))), out2, pre' @ (k, c') # post)"
    using p assms(4) s by (simp add: loop_append)
  show ?thesis
    using l assms(1,2) by (simp add: QuerySendPacket_def GetNextPacket_def lock_def Let_def)
qed

text \<open>
  C5. With an empty control queue, \<open>QuerySendPacket\<close> goes through the table in its
  order and stops at the first channel that answers that it has a packet. When the
  channels before it (\<open>pre\<close>), asked in order, all answer that they have nothing and
  the next channel \<open>c\<close> answers that it has a packet, the call returns \<open>IsSendable\<close> of
  that packet's kind (false in Sleep, true in Normal) with that packet in the buffers,
  and the channels after \<open>c\<close> are exactly as before, whatever they are and whatever
  they have ready: none of them is asked. The second part says the same for channels
  whose answer does not depend on the buffers they are handed.
\<close>
theorem QuerySendPacket_first_match:
  assumes "m_global_send_buffer m = []"
    and "m_channel_impl_map m = pre @ (k, c) # post"
  shows "(\<forall>out1 pre' out2 c'.
            all_decline env out pre = Some (out1, pre')
            \<and> ch_QuerySendPacket env out1 c = (True, out2, c') \<longrightarrow>
              QuerySendPacket env out m =
                (IsSendable m (packet_type (out_header out2)), out2,
                 unlock (lock m\<lparr>m_channel_impl_map := pre' @ (k, c') # post\<rparr>))
            \<and> (m_state m = Sleep \<longrightarrow> fst (QuerySendPacket env out m) = False)
            \<and> (m_state m = Normal \<longrightarrow> fst (QuerySendPacket env out m) = True))
       \<and> ((\<forall>p \<in> set pre. \<forall>bufs. \<not> fst (ch_QuerySendPacket env bufs (snd p)))
            \<and> (\<forall>bufs. fst (ch_QuerySendPacket env bufs c)) \<longrightarrow>
              fst (QuerySendPacket env out m)
                = IsSendable m (packet_type (out_header (fst (snd (QuerySendPacket env out m)))))
            \<and> fst (QuerySendPacket env out m) = (m_state m = Normal)
            \<and> (\<exists>bufs. fst (snd (QuerySendPacket env out m)) = fst (snd (ch_QuerySendPacket env bufs c)))
            \<and> drop (Suc (length pre)) (m_channel_impl_map (snd (snd (QuerySendPacket env out m)))) = post)"
proof -
  have g: "QuerySendPacket env out m =
                (IsSendable m (packet_type (out_header out2)), out2,
                 unlock (lock m\<lparr>m_channel_impl_map := pre' @ (k, c') # post\<rparr>))
            \<and> (m_state m = Sleep \<longrightarrow> fst (QuerySendPacket env out m) = False)
            \<and> (m_state m = Normal \<longrightarrow> fst (QuerySendPacket env out m) = True)"
    if "all_decline env out pre = Some (out1, pre') \<and> ch_QuerySendPacket env out1 c = (True, out2, c')"
    for out1 pre' out2 c'
    using first_ready_general [OF assms, of env out out1 pre' out2 c'] that
    by (simp add: IsSendable_def)
  have h: "fst (QuerySendPacket env out m)
                = IsSendable m (packet_type (out_header (fst (snd (QuerySendPacket env out m)))))
            \<and> fst (QuerySendPacket env out m) = (m_state m = Normal)
            \<and> (\<exists>bufs. fst (snd (QuerySendPacket env out m)) = fst (snd (ch_QuerySendPacket env bufs c)))
            \<and> drop (Suc (length pre)) (m_channel_impl_map (snd (snd (QuerySendPacket env out m)))) = post"
    if n: "(\<forall>p \<in> set pre. \<forall>bufs. \<not> fst (ch_QuerySendPacket env bufs (snd p)))
            \<and> (\<forall>bufs. fst (ch_QuerySendPacket env bufs c))"
  proof -
    from never_ready_all_decline [of pre env out] n obtain out1 pre' where
      d: "all_decline env out pre = Some (out1, pre')" by blast
    obtain ready out2 c' where q: "ch_QuerySendPacket env out1 c = (ready, out2, c')"
      by (cases "ch_QuerySendPacket env out1 c") auto
    from n have "fst (ch_QuerySendPacket env out1 c)" by blast
    with q have q': "ch_QuerySendPacket env out1 c = (True, out2, c')" by simp
    have e: "QuerySendPacket env out m =
           (IsSendable m (packet_type (out_header out2)), out2,
            unlock (lock m\<lparr>m_channel_impl_map := pre' @ (k, c') # post\<rparr>))"
      by (rule first_ready_general [OF assms d q'])
    have len: "length pre' = length pre" by (rule all_decline_length [OF d])
    have o2: "out2 = fst (snd (ch_QuerySendPacket env out1 c))" using q' by simp
    have st: "IsSendable m t = (m_state m = Normal)" for t
      by (cases "m_state m") (simp_all add: IsSendable_def)
    show ?thesis
      using e len o2 st by (auto simp: unlock_def lock_def)
  qed
  from g h show ?thesis by blast
qed

theorem QuerySendPacket_first_match_witness:
  "m_global_send_buffer (sample_mux [(1, sample_channel 0), (3, sample_channel 8), (4, sample_channel 2)] [] Sleep) = []
   \<and> all_decline sample_env sample_out [(1, sample_channel 0)] = Some (sample_out, [(1, sample_channel 0)])
   \<and> (\<forall>bufs. \<not> fst (ch_QuerySendPacket sample_env bufs (sample_channel 0)))
   \<and> (\<forall>bufs. fst (ch_QuerySendPacket sample_env bufs (sample_channel 8)))
   \<and> ch_QuerySendPacket sample_env sample_out (sample_channel 8)
        = (True, sample_out\<lparr>out_header := sample_header PacketType_Data 0, out_body_size := 8\<rparr>,
           sample_channel 8)
   \<and> QuerySendPacket sample_env sample_out
        (sample_mux [(1, sample_channel 0), (3, sample_channel 8), (4, sample_channel 2)] [] Sleep)
      = (False, sample_out\<lparr>out_header := sample_header PacketType_Data 0, out_body_size := 8\<rparr>,
         unlock (lock (sample_mux [(1, sample_channel 0), (3, sample_channel 8), (4, sample_channel 2)] [] Sleep)
                   \<lparr>m_channel_impl_map := [(1, sample_channel 0), (3, sample_channel 8), (4, sample_channel 2)]\<rparr>))
   \<and> drop 2 (m_channel_impl_map (snd (snd (QuerySendPacket sample_env sample_out
        (sample_mux [(1, sample_channel 0), (3, sample_channel 8), (4, sample_channel 2)] [] Sleep)))))
      = [(4, sample_channel 2)]"
proof -
  let ?m = "sample_mux [(1, sample_channel 0), (3, sample_channel 8), (4, sample_channel 2)] [] Sleep"
  have a: "m_global_send_buffer ?m = []" by (simp add: sample_mux_def)
  have b: "m_channel_impl_map ?m = [(1, sample_channel 0)] @ (3, sample_channel 8) # [(4, sample_channel 2)]"
    by (simp add: sample_mux_def)
  have c: "all_decline sample_env sample_out [(1, sample_channel 0)]
             = Some (sample_out, [(1, sample_channel 0)])"
    by (simp add: sample_env_def sample_channel_def)
  have d: "ch_QuerySendPacket sample_env sample_out (sample_channel 8)
        = (True, sample_out\<lparr>out_header := sample_header PacketType_Data 0, out_body_size := 8\<rparr>,
           sample_channel 8)"
    by (simp add: sample_env_def sample_channel_def)
  have n0: "\<forall>bufs. \<not> fst (ch_QuerySendPacket sample_env bufs (sample_channel 0))"
    by (simp add: sample_env_def sample_channel_def)
  have n8: "\<forall>bufs. fst (ch_QuerySendPacket sample_env bufs (sample_channel 8))"
    by (simp add: sample_env_def sample_channel_def)
  have e: "m_state ?m = Sleep" by (simp add: sample_mux_def)
  have main: "QuerySendPacket sample_env sample_out ?m
      = (False, sample_out\<lparr>out_header := sample_header PacketType_Data 0, out_body_size := 8\<rparr>,
         unlock (lock ?m\<lparr>m_channel_impl_map :=
           [(1, sample_channel 0), (3, sample_channel 8), (4, sample_channel 2)]\<rparr>))"
    using QuerySendPacket_first_match [OF a b, of sample_env sample_out] c d e
    by (simp add: IsSendable_def)
  have rest: "drop 2 (m_channel_impl_map (snd (snd (QuerySendPacket sample_env sample_out ?m))))
      = [(4, sample_channel 2)]"
    using QuerySendPacket_first_match [OF a b, of sample_env sample_out] n0 n8
    by (simp add: numeral_2_eq_2)
  from a c n0 n8 d main rest show ?thesis by blast
qed

section \<open>The lock\<close>

lemma guarded_state_unlock: "guarded_state (unlock m) = guarded_state m"
  by (simp add: guarded_state_def unlock_def)













end
